theory Spec2Isabelle
  imports Complex_Main "HOL-Library.Word"
begin

section \<open>Constants of \<open>bot.py\<close>\<close>

type_synonym bytes = "8 word list"

text \<open>Lines 9-17: the resolution catalog, in the order of the source.\<close>

definition common_resolutions :: "(int \<times> int) list" where
  "common_resolutions =
     [(1920, 1080), (1280, 720), (1024, 768), (600, 800), (800, 600), (800, 800), (1600, 900)]"

text \<open>Lines 20-21.\<close>

definition MAX_BYTES :: nat where
  "MAX_BYTES = 1000000"

definition TARGET_MAX_BYTES :: nat where
  "TARGET_MAX_BYTES = 950000"

section \<open>Python exceptions\<close>

text \<open>
  The script raises \<open>RuntimeError\<close> itself (lines 70, 79, 87). \<open>OverflowError\<close> and
  \<open>ValueError\<close> are what the interpreter raises in \<open>width * scale\<close> and \<open>int(...)\<close>,
  \<open>IndexError\<close> what \<open>random.choice\<close> raises on an empty sequence.
  Whatever Pillow, requests or atproto raise is a \<open>LibraryError\<close>; the script has no
  \<open>try\<close>, so all of them propagate unchanged.
\<close>

datatype exn =
    RuntimeError string
  | OverflowError string
  | ValueError string
  | IndexError string
  | LibraryError string

section \<open>Python floats\<close>

text \<open>
  A Python float is an IEEE 754 binary64 value. \<open>Finite m e\<close> stands for \<open>m * 2^e\<close>
  (the two zeros are not told apart: no operation of the script observes the sign of a
  zero), \<open>Infinity neg\<close> for the infinity of that sign.
\<close>

datatype pyfloat = Finite int int | Infinity bool | NaN

function bit_length :: "int \<Rightarrow> int" where
  "bit_length n = (if n = 0 then 0 else 1 + bit_length (\<bar>n\<bar> div 2))"
  by pat_completeness auto
termination
  by (relation "measure (\<lambda>n. nat \<bar>n\<bar>)") auto

declare bit_length.simps [simp del]

text \<open>
  Rounding the exact value \<open>M * 2^E\<close> to the nearest binary64, ties to even: keep 53
  significant bits (fewer below the smallest normal exponent, where the spacing stays
  \<open>2^-1074\<close>), and overflow to infinity when the rounded value reaches \<open>2^1024\<close>.
\<close>

definition float_round :: "int \<Rightarrow> int \<Rightarrow> pyfloat" where
  "float_round M E =
     (let k = max (bit_length M - 53) (- 1074 - E);
          q = (if k \<le> 0 then \<bar>M\<bar> else \<bar>M\<bar> div 2 ^ nat k);
          r = (if k \<le> 0 then 0 else \<bar>M\<bar> mod 2 ^ nat k);
          half = (if k \<le> 0 then 1 else 2 ^ nat (k - 1));
          q' = (if half < r then q + 1
                else if r = half then (if even q then q else q + 1)
                else q);
          e' = (if k \<le> 0 then E else E + k)
      in if 0 \<le> e' \<and> 2 ^ 1024 \<le> q' * 2 ^ nat e' then Infinity (M < 0)
         else Finite (sgn M * q') e')"

text \<open>\<open>float(n)\<close> for a Python int, as the interpreter does it for \<open>n * x\<close>.\<close>

definition int_to_float :: "int \<Rightarrow> exn + pyfloat" where
  "int_to_float n =
     (case float_round n 0 of
        Finite m e \<Rightarrow> Inr (Finite m e)
      | _ \<Rightarrow> Inl (OverflowError ''int too large to convert to float''))"

fun float_mul :: "pyfloat \<Rightarrow> pyfloat \<Rightarrow> pyfloat" where
  "float_mul (Finite m1 e1) (Finite m2 e2) = float_round (m1 * m2) (e1 + e2)"
| "float_mul NaN _ = NaN"
| "float_mul _ NaN = NaN"
| "float_mul (Infinity s) (Finite m e) = (if m = 0 then NaN else Infinity (s \<noteq> (m < 0)))"
| "float_mul (Finite m e) (Infinity s) = (if m = 0 then NaN else Infinity (s \<noteq> (m < 0)))"
| "float_mul (Infinity s1) (Infinity s2) = Infinity (s1 \<noteq> s2)"

text \<open>\<open>n * x\<close> with \<open>n\<close> an int and \<open>x\<close> a float.\<close>

definition int_mul_float :: "int \<Rightarrow> pyfloat \<Rightarrow> exn + pyfloat" where
  "int_mul_float n x =
     (case int_to_float n of Inl err \<Rightarrow> Inl err | Inr y \<Rightarrow> Inr (float_mul y x))"

text \<open>\<open>int(x)\<close> for a float: truncation towards zero.\<close>

fun float_to_int :: "pyfloat \<Rightarrow> exn + int" where
  "float_to_int (Finite m e) =
     Inr (if 0 \<le> e then m * 2 ^ nat e else sgn m * (\<bar>m\<bar> div 2 ^ nat (- e)))"
| "float_to_int (Infinity s) = Inl (OverflowError ''cannot convert float infinity to integer'')"
| "float_to_int NaN = Inl (ValueError ''cannot convert float NaN to integer'')"

text \<open>The literal \<open>0.9\<close>: the binary64 nearest to 9/10 is \<open>8106479329266893 * 2^-53\<close>.\<close>

definition float_0_9 :: pyfloat where
  "float_0_9 = Finite 8106479329266893 (- 53)"

section \<open>Library calls and their trace\<close>

text \<open>
  Pillow is not part of the repository: its five operations used by the script are
  parameters of the model. Each may raise, except reading the \<open>size\<close> attribute.
  \<^item> \<open>Image_open b\<close> is \<open>Image.open(io.BytesIO(b))\<close>;
  \<^item> \<open>convert_RGB img\<close> is \<open>img.convert("RGB")\<close>;
  \<^item> \<open>size_of img\<close> is \<open>img.size\<close>;
  \<^item> \<open>resize_LANCZOS img (w, h)\<close> is \<open>img.resize((w, h), Image.LANCZOS)\<close>;
  \<^item> \<open>save_JPEG img q\<close> is the content of a fresh \<open>io.BytesIO\<close> after
    \<open>img.save(out, format="JPEG", quality=q, optimize=True, progressive=True)\<close>.
\<close>

record 'img codec =
  Image_open :: "bytes \<Rightarrow> exn + 'img"
  convert_RGB :: "'img \<Rightarrow> exn + 'img"
  size_of :: "'img \<Rightarrow> int \<times> int"
  resize_LANCZOS :: "'img \<Rightarrow> int \<times> int \<Rightarrow> exn + 'img"
  save_JPEG :: "'img \<Rightarrow> int \<Rightarrow> exn + bytes"

text \<open>One event for each call of the library, in the order the calls are made.\<close>

datatype 'img event =
    EvOpen bytes
  | EvConvert 'img
  | EvResize 'img int int
  | EvSave 'img int

text \<open>
  A run is the trace of the calls made and either the exception that ended it or the
  value computed. \<open>bind_run\<close> is sequencing: an exception ends the run where it is raised.
\<close>

type_synonym ('ev, 'a) run = "'ev list \<times> (exn + 'a)"

definition ret :: "'a \<Rightarrow> ('ev, 'a) run" where
  "ret x = ([], Inr x)"

definition raise_exn :: "exn \<Rightarrow> ('ev, 'a) run" where
  "raise_exn err = ([], Inl err)"

definition silent :: "exn + 'a \<Rightarrow> ('ev, 'a) run" where
  "silent r = ([], r)"

definition call :: "'ev \<Rightarrow> exn + 'a \<Rightarrow> ('ev, 'a) run" where
  "call ev r = ([ev], r)"

fun bind_run :: "('ev, 'a) run \<Rightarrow> ('a \<Rightarrow> ('ev, 'b) run) \<Rightarrow> ('ev, 'b) run" where
  "bind_run (tr, Inl err) f = (tr, Inl err)"
| "bind_run (tr, Inr x) f = (case f x of (tr', r) \<Rightarrow> (tr @ tr', r))"

section \<open>The fitter: \<open>convert_and_compress_to_jpeg\<close>\<close>

text \<open>The two quality lists of lines 49 and 62.\<close>

definition quality_ladder :: "int list" where
  "quality_ladder = [95, 92, 90, 88, 85, 82, 80, 78, 75, 72, 70, 65, 60, 55, 50]"

definition fallback_ladder :: "int list" where
  "fallback_ladder = [80, 75, 70, 65, 60, 55]"

text \<open>
  The loop body of lines 49-54 and of lines 62-67: encode at each quality of the list in
  turn and return the first encoding that fits; \<open>None\<close> when the loop falls through.
\<close>

fun try_qualities :: "'img codec \<Rightarrow> 'img \<Rightarrow> int list \<Rightarrow> ('img event, bytes option) run" where
  "try_qualities c img [] = ret None"
| "try_qualities c img (quality # rest) =
     bind_run (call (EvSave img quality) (save_JPEG c img quality)) (\<lambda>data.
       if length data \<le> TARGET_MAX_BYTES then ret (Some data)
       else try_qualities c img rest)"

text \<open>\<open>max(1, int(x * scale))\<close>, lines 59 and 60.\<close>

definition scaled_dim :: "int \<Rightarrow> pyfloat \<Rightarrow> exn + int" where
  "scaled_dim x scale =
     (case int_mul_float x scale of
        Inl err \<Rightarrow> Inl err
      | Inr p \<Rightarrow> (case float_to_int p of Inl err \<Rightarrow> Inl err | Inr n \<Rightarrow> Inr (max 1 n)))"

text \<open>
  Lines 58-68, with \<open>n\<close> the number of iterations of \<open>range(5)\<close> still to run and
  \<open>scale\<close> the current value of the variable.
\<close>

fun scale_rounds ::
  "'img codec \<Rightarrow> 'img \<Rightarrow> int \<Rightarrow> int \<Rightarrow> pyfloat \<Rightarrow> nat \<Rightarrow> ('img event, bytes option) run" where
  "scale_rounds c img width height scale 0 = ret None"
| "scale_rounds c img width height scale (Suc n) =
     bind_run (silent (scaled_dim width scale)) (\<lambda>new_w.
     bind_run (silent (scaled_dim height scale)) (\<lambda>new_h.
     bind_run (call (EvResize img new_w new_h) (resize_LANCZOS c img (new_w, new_h))) (\<lambda>tmp.
     bind_run (try_qualities c tmp fallback_ladder) (\<lambda>found.
       case found of
         Some data \<Rightarrow> ret (Some data)
       | None \<Rightarrow> scale_rounds c img width height (float_mul scale float_0_9) n))))"

text \<open>Lines 36-70.\<close>

definition convert_and_compress_to_jpeg ::
  "'img codec \<Rightarrow> bytes \<Rightarrow> int \<Rightarrow> int \<Rightarrow> ('img event, bytes) run" where
  "convert_and_compress_to_jpeg c img_bytes width height =
     bind_run (call (EvOpen img_bytes) (Image_open c img_bytes)) (\<lambda>img0.
     bind_run (call (EvConvert img0) (convert_RGB c img0)) (\<lambda>img1.
     bind_run (if size_of c img1 \<noteq> (width, height)
               then call (EvResize img1 width height) (resize_LANCZOS c img1 (width, height))
               else ret img1) (\<lambda>img.
     bind_run (try_qualities c img quality_ladder) (\<lambda>found.
       case found of
         Some data \<Rightarrow> ret data
       | None \<Rightarrow>
           bind_run (scale_rounds c img width height float_0_9 5) (\<lambda>found.
             case found of
               Some data \<Rightarrow> ret data
             | None \<Rightarrow>
                 raise_exn (RuntimeError ''Could not compress image under the size limit.''))))))"

text \<open>
  Lines 41-46 on their own: decoding, conversion to RGB and the resize to the target.
  \<open>convert_and_compress_to_jpeg\<close> starts with these steps (lemma \<open>fitter_split\<close>).
\<close>

definition prepare :: "'img codec \<Rightarrow> bytes \<Rightarrow> int \<Rightarrow> int \<Rightarrow> ('img event, 'img) run" where
  "prepare c img_bytes width height =
     bind_run (call (EvOpen img_bytes) (Image_open c img_bytes)) (\<lambda>img0.
     bind_run (call (EvConvert img0) (convert_RGB c img0)) (\<lambda>img1.
       if size_of c img1 \<noteq> (width, height)
       then call (EvResize img1 width height) (resize_LANCZOS c img1 (width, height))
       else ret img1))"

text \<open>Lines 48-70 on their own: the two searches on the prepared raster.\<close>

definition compress :: "'img codec \<Rightarrow> 'img \<Rightarrow> int \<Rightarrow> int \<Rightarrow> ('img event, bytes) run" where
  "compress c img width height =
     bind_run (try_qualities c img quality_ladder) (\<lambda>found.
       case found of
         Some data \<Rightarrow> ret data
       | None \<Rightarrow>
           bind_run (scale_rounds c img width height float_0_9 5) (\<lambda>found.
             case found of
               Some data \<Rightarrow> ret data
             | None \<Rightarrow>
                 raise_exn (RuntimeError ''Could not compress image under the size limit.'')))"

subsection \<open>Reading a trace\<close>

fun is_save :: "'img event \<Rightarrow> bool" where
  "is_save (EvSave img q) = True"
| "is_save _ = False"

fun is_resize :: "'img event \<Rightarrow> bool" where
  "is_resize (EvResize img w h) = True"
| "is_resize _ = False"

definition count_saves :: "'img event list \<Rightarrow> nat" where
  "count_saves tr = length (filter is_save tr)"

definition count_resizes :: "'img event list \<Rightarrow> nat" where
  "count_resizes tr = length (filter is_resize tr)"

text \<open>
  The resize of lines 45-46 comes before every encode, the resize of line 61 after at
  least one: the resizes after the first encode are the scale-down rounds entered.
\<close>

definition rounds_entered :: "'img event list \<Rightarrow> nat" where
  "rounds_entered tr = count_resizes (dropWhile (\<lambda>ev. \<not> is_save ev) tr)"

fun saved_rasters :: "'img event list \<Rightarrow> 'img list" where
  "saved_rasters [] = []"
| "saved_rasters (EvSave img q # tr) = img # saved_rasters tr"
| "saved_rasters (ev # tr) = saved_rasters tr"

text \<open>The raster of the last encode: the one whose encoding a successful run returns.\<close>

definition encoded_raster :: "'img event list \<Rightarrow> 'img option" where
  "encoded_raster tr = (case rev (saved_rasters tr) of [] \<Rightarrow> None | img # earlier \<Rightarrow> Some img)"

subsection \<open>The scale-down fallback as the specification words it\<close>

text \<open>
  The scale of round \<open>k\<close>: \<open>0.9\<close> compounded \<open>k\<close> times, as a product of floats
  (\<open>1.0 * 0.9\<close> is the float \<open>0.9\<close> itself).
\<close>

fun compounded_scale :: "nat \<Rightarrow> pyfloat" where
  "compounded_scale 0 = Finite 1 0"
| "compounded_scale (Suc k) = float_mul (compounded_scale k) float_0_9"

text \<open>
  A ladder tried in order: the encodings larger than the budget are passed over, and the
  first attempt that is not one of them ends the search, with its encoding (or with the
  exception the encoder raised).
\<close>

definition too_large :: "'img codec \<Rightarrow> 'img \<Rightarrow> int \<Rightarrow> bool" where
  "too_large c img q =
     (case save_JPEG c img q of Inl err \<Rightarrow> False | Inr data \<Rightarrow> TARGET_MAX_BYTES < length data)"

definition first_fit :: "'img codec \<Rightarrow> 'img \<Rightarrow> int list \<Rightarrow> ('img event, bytes option) run" where
  "first_fit c img qs =
     (case dropWhile (too_large c img) qs of
        [] \<Rightarrow> (map (EvSave img) qs, Inr None)
      | q # untried \<Rightarrow>
          (map (EvSave img) (takeWhile (too_large c img) qs @ [q]),
           case save_JPEG c img q of Inl err \<Rightarrow> Inl err | Inr data \<Rightarrow> Inr (Some data)))"




text \<open>
  The dimensions of round \<open>k\<close> with the scale \<open>0.9^k\<close> taken exactly: rounded to the
  nearest integer, as the specification has it, and truncated.
\<close>

definition spec_rounded_dims :: "int \<Rightarrow> int \<Rightarrow> nat \<Rightarrow> int \<times> int" where
  "spec_rounded_dims width height k =
     (round (of_int width * (9 / 10 :: real) ^ k), round (of_int height * (9 / 10 :: real) ^ k))"

definition truncated_dims :: "int \<Rightarrow> int \<Rightarrow> nat \<Rightarrow> int \<times> int" where
  "truncated_dims width height k =
     (\<lfloor>of_int width * (9 / 10 :: real) ^ k\<rfloor>, \<lfloor>of_int height * (9 / 10 :: real) ^ k\<rfloor>)"

section \<open>The script: \<open>download_random_picsum\<close> and \<open>main\<close>\<close>

subsection \<open>Strings\<close>

text \<open>
  A string is a list of code points below 256. \<open>isspace\<close> is Python's \<open>str.isspace\<close>
  on one such character, \<open>strip\<close> is \<open>str.strip()\<close> without argument.
\<close>

definition isspace :: "char \<Rightarrow> bool" where
  "isspace ch = (of_char ch \<in> set [9, 10, 11, 12, 13, 28, 29, 30, 31, 32, 133, 160 :: nat])"

definition strip :: "string \<Rightarrow> string" where
  "strip s = rev (dropWhile isspace (rev (dropWhile isspace s)))"

text \<open>\<open>str(n)\<close> for an int; \<open>digit_char\<close> is only applied below 10.\<close>

definition digit_char :: "nat \<Rightarrow> char" where
  "digit_char d = ''0123456789'' ! d"

function str_nat :: "nat \<Rightarrow> string" where
  "str_nat n = (if n < 10 then [digit_char n] else str_nat (n div 10) @ [digit_char (n mod 10)])"
  by pat_completeness auto
termination
  by (relation "measure id") auto

declare str_nat.simps [simp del]

definition str_int :: "int \<Rightarrow> string" where
  "str_int i = (if i < 0 then CHR ''-'' # str_nat (nat (- i)) else str_nat (nat i))"

definition newline :: string where
  "newline = [CHR 0x0A]"

subsection \<open>The collaborators\<close>

text \<open>
  What the script reads and calls outside itself: the environment, the random generator
  (\<open>randbelow n\<close> is its draw below \<open>n\<close>), the clock (already formatted by
  \<open>strftime("%Y-%m-%d")\<close>), \<open>requests.get\<close> and the atproto client. \<open>status_error\<close> of a
  response is what \<open>raise_for_status()\<close> raises, if anything.
\<close>

record response =
  status_error :: "exn option"
  content :: bytes
  url :: string

record 'cl services =
  environ :: "string \<rightharpoonup> string"
  randbelow :: "nat \<Rightarrow> nat"
  today_utc :: string
  requests_get :: "string \<Rightarrow> int \<Rightarrow> exn + response"
  Client :: "string option \<Rightarrow> exn + 'cl"
  login :: "'cl \<Rightarrow> string \<Rightarrow> string \<Rightarrow> exn + unit"
  send_image :: "'cl \<Rightarrow> string \<Rightarrow> bytes \<Rightarrow> string \<Rightarrow> exn + unit"

datatype 'img main_event =
    EvGet string int
  | EvFitter "'img event"
  | EvClient "string option"
  | EvLogin string string
  | EvSendImage string bytes string
  | EvPrint string

definition PICSUM_BASE :: string where
  "PICSUM_BASE = ''https://picsum.photos''"

text \<open>\<open>os.environ.get(key, default)\<close>.\<close>

definition environ_get :: "(string \<rightharpoonup> string) \<Rightarrow> string \<Rightarrow> string \<Rightarrow> string" where
  "environ_get env key dflt = (case env key of Some v \<Rightarrow> v | None \<Rightarrow> dflt)"

text \<open>\<open>random.choice(xs)\<close>: the element at the index drawn below \<open>len(xs)\<close>.\<close>

definition random_choice :: "'cl services \<Rightarrow> 'a list \<Rightarrow> exn + 'a" where
  "random_choice sv xs =
     (if xs = [] then Inl (IndexError ''Cannot choose from an empty sequence'')
      else Inr (xs ! (randbelow sv (length xs) mod length xs)))"

text \<open>Lines 24-33.\<close>

definition download_random_picsum ::
  "'cl services \<Rightarrow> int \<Rightarrow> int \<Rightarrow> int \<Rightarrow> ('img main_event, bytes \<times> string) run" where
  "download_random_picsum sv width height timeout_s =
     (let target = PICSUM_BASE @ ''/'' @ str_int width @ ''/'' @ str_int height
      in bind_run (call (EvGet target timeout_s) (requests_get sv target timeout_s)) (\<lambda>resp.
         bind_run (silent (case status_error resp of Some err \<Rightarrow> Inl err | None \<Rightarrow> Inr ())) (\<lambda>ok.
         ret (content resp, url resp))))"

text \<open>The fitter's run inside the run of \<open>main\<close>.\<close>

definition in_main :: "('img event, 'a) run \<Rightarrow> ('img main_event, 'a) run" where
  "in_main r = (map EvFitter (fst r), snd r)"

text \<open>
  Lines 73-99, with the fitter called at line 84 as the parameter \<open>fit\<close>, so that line 86
  can be stated for any byte count the fitter may return.
\<close>

definition main_with ::
  "(bytes \<Rightarrow> int \<Rightarrow> int \<Rightarrow> ('img main_event, bytes) run) \<Rightarrow> 'cl services \<Rightarrow> ('img main_event, unit) run" where
  "main_with fit sv =
     (let handle = strip (environ_get (environ sv) ''BSKY_HANDLE'' []);
          app_password = strip (environ_get (environ sv) ''BSKY_APP_PASSWORD'' []);
          pds = strip (environ_get (environ sv) ''BSKY_PDS'' [])
      in if handle = [] \<or> app_password = []
         then raise_exn (RuntimeError
                ''Missing BSKY_HANDLE or BSKY_APP_PASSWORD environment variables.'')
         else
           bind_run (silent (random_choice sv common_resolutions)) (\<lambda>(width, height).
           bind_run (download_random_picsum sv width height 30) (\<lambda>(raw_bytes, final_url).
           bind_run (fit raw_bytes width height) (\<lambda>jpeg_bytes.
             if MAX_BYTES < length jpeg_bytes
             then raise_exn (RuntimeError (''Image is still too large: ''
                    @ str_int (int (length jpeg_bytes)) @ '' bytes''))
             else
               bind_run (if pds \<noteq> [] then call (EvClient (Some pds)) (Client sv (Some pds))
                         else call (EvClient None) (Client sv None)) (\<lambda>client.
               bind_run (call (EvLogin handle app_password)
                           (login sv client handle app_password)) (\<lambda>logged_in.
                 let text = ''Daily random image '' @ today_utc sv @ newline
                            @ str_int width @ ''x'' @ str_int height @ newline
                            @ ''Source: '' @ final_url;
                     alt = ''Random photo placeholder at '' @ str_int width @ '' by ''
                           @ str_int height @ '' resolution.''
                 in bind_run (call (EvSendImage text jpeg_bytes alt)
                                (send_image sv client text jpeg_bytes alt)) (\<lambda>sent.
                    call (EvPrint (''Posted successfully: '' @ str_int width @ '' ''
                            @ str_int height @ '' '' @ final_url @ '' bytes: ''
                            @ str_int (int (length jpeg_bytes)))) (Inr ()))))))))"

definition main :: "'img codec \<Rightarrow> 'cl services \<Rightarrow> ('img main_event, unit) run" where
  "main c sv =
     main_with (\<lambda>raw_bytes width height.
       in_main (convert_and_compress_to_jpeg c raw_bytes width height)) sv"

section \<open>Concrete collaborators\<close>

text \<open>
  A codec small enough to run: a raster is its pair of dimensions, a file of \<open>n > 0\<close>
  bytes decodes to an \<open>n\<close> by 1 raster and the empty file is not an image, a resize needs
  positive dimensions, and the size of an encoding is given by \<open>bytes_of\<close>.
\<close>

definition model_codec :: "(int \<times> int \<Rightarrow> int \<Rightarrow> nat) \<Rightarrow> (int \<times> int) codec" where
  "model_codec bytes_of =
     \<lparr> Image_open = (\<lambda>b. if b = [] then Inl (LibraryError ''cannot identify image file'')
                          else Inr (int (length b), 1)),
       convert_RGB = (\<lambda>img. Inr img),
       size_of = (\<lambda>img. img),
       resize_LANCZOS = (\<lambda>img (w, h).
          if w \<le> 0 \<or> h \<le> 0 then Inl (ValueError ''height and width must be > 0'')
          else Inr (w, h)),
       save_JPEG = (\<lambda>img q. Inr (replicate (bytes_of img q) 0)) \<rparr>"

text \<open>Encodings that fit from quality 90 down.\<close>

definition codec_by_quality :: "(int \<times> int) codec" where
  "codec_by_quality = model_codec (\<lambda>img q. if 90 < q then 950001 else 1000)"

text \<open>Encodings that fit only below 1600 pixels of width.\<close>

definition codec_by_width :: "(int \<times> int) codec" where
  "codec_by_width = model_codec (\<lambda>img q. if 1600 < fst img then 950001 else 1000)"

text \<open>Encodings that never fit.\<close>

definition codec_incompressible :: "(int \<times> int) codec" where
  "codec_incompressible = model_codec (\<lambda>img q. 950001)"

text \<open>Services that always answer, around a given environment.\<close>

definition model_services :: "(string \<rightharpoonup> string) \<Rightarrow> unit services" where
  "model_services env =
     \<lparr> environ = env,
       randbelow = (\<lambda>n. 0),
       today_utc = ''2026-01-01'',
       requests_get = (\<lambda>target timeout_s.
          Inr \<lparr> status_error = None, content = [1, 2, 3], url = ''https://picsum.photos/id/1'' \<rparr>),
       Client = (\<lambda>pds. Inr ()),
       login = (\<lambda>client handle app_password. Inr ()),
       send_image = (\<lambda>client text image alt. Inr ()) \<rparr>"

text \<open>A fitter that reports success with one byte more than the hard limit.\<close>

definition oversized_fit :: "bytes \<Rightarrow> int \<Rightarrow> int \<Rightarrow> ((int \<times> int) main_event, bytes) run" where
  "oversized_fit raw_bytes width height = ret (replicate 1000001 0)"

section \<open>Sequencing\<close>

lemma bind_run_Inr:
  "bind_run m f = (tr, Inr y) \<longleftrightarrow>
     (\<exists>tr1 x tr2. m = (tr1, Inr x) \<and> f x = (tr2, Inr y) \<and> tr = tr1 @ tr2)"
proof (cases m)
  case (Pair tr1 r)
  then show ?thesis
    by (cases r) (auto split: prod.splits)
qed

lemma bind_run_InrE:
  assumes "bind_run m f = (tr, Inr y)"
  obtains tr1 x tr2 where "m = (tr1, Inr x)" and "f x = (tr2, Inr y)" and "tr = tr1 @ tr2"
  using assms unfolding bind_run_Inr by blast

lemma finish_Inr:
  "(case found of Some d \<Rightarrow> ret d | None \<Rightarrow> raise_exn err) = (tr, Inr data) \<Longrightarrow>
   found = Some data"
  by (cases found) (simp_all add: ret_def raise_exn_def)

lemma bind_run_assoc:
  "bind_run (bind_run m f) g = bind_run m (\<lambda>x. bind_run (f x) g)"
proof (cases m)
  case (Pair tr r)
  show ?thesis
  proof (cases r)
    case (Inl err)
    with Pair show ?thesis by simp
  next
    case (Inr x)
    obtain tr' r' where fx: "f x = (tr', r')" by (cases "f x")
    show ?thesis
    proof (cases r')
      case (Inl err)
      with Pair Inr fx show ?thesis by simp
    next
      case (Inr y)
      with Pair \<open>r = Inr x\<close> fx show ?thesis by (simp split: prod.splits)
    qed
  qed
qed

lemma bind_run_trace:
  "fst (bind_run m f) = fst m @ (case snd m of Inl err \<Rightarrow> [] | Inr x \<Rightarrow> fst (f x))"
  by (cases m; cases "snd m") (simp_all split: prod.splits)

text \<open>The fitter is the preparation of the raster followed by the two searches.\<close>

lemma fitter_split:
  "convert_and_compress_to_jpeg c img_bytes width height =
     bind_run (prepare c img_bytes width height) (\<lambda>img. compress c img width height)"
  unfolding convert_and_compress_to_jpeg_def prepare_def compress_def bind_run_assoc
  by (rule refl)

section \<open>Running the model on concrete inputs\<close>

lemmas float_eval = float_0_9_def float_round_def bit_length.simps Let_def
  scaled_dim_def int_mul_float_def int_to_float_def

lemmas fitter_eval = convert_and_compress_to_jpeg_def prepare_def model_codec_def
  call_def ret_def raise_exn_def silent_def quality_ladder_def fallback_ladder_def
  TARGET_MAX_BYTES_def MAX_BYTES_def

lemmas main_eval = model_services_def environ_get_def strip_def isspace_def random_choice_def
  common_resolutions_def download_random_picsum_def PICSUM_BASE_def str_int_def str_nat.simps
  digit_char_def call_def ret_def silent_def raise_exn_def Let_def

lemma scale_rounds_numeral:
  "scale_rounds c img width height scale (numeral k) =
     bind_run (silent (scaled_dim width scale)) (\<lambda>new_w.
     bind_run (silent (scaled_dim height scale)) (\<lambda>new_h.
     bind_run (call (EvResize img new_w new_h) (resize_LANCZOS c img (new_w, new_h))) (\<lambda>tmp.
     bind_run (try_qualities c tmp fallback_ladder) (\<lambda>found.
       case found of
         Some data \<Rightarrow> ret (Some data)
       | None \<Rightarrow>
           scale_rounds c img width height (float_mul scale float_0_9) (pred_numeral k)))))"
  by (simp add: numeral_eq_Suc)

lemma compounded_scale_numeral:
  "compounded_scale (numeral k) = float_mul (compounded_scale (pred_numeral k)) float_0_9"
  by (simp add: numeral_eq_Suc)

lemma compounded_scale_values:
  "compounded_scale 1 = Finite 8106479329266893 (- 53)"
  "compounded_scale 2 = Finite 7295831396340204 (- 53)"
  "compounded_scale 3 = Finite 6566248256706184 (- 53)"
  "compounded_scale 4 = Finite 5909623431035566 (- 53)"
  "compounded_scale 5 = Finite 5318661087932010 (- 53)"
  by (simp_all add: compounded_scale_numeral float_eval)

text \<open>The scale of the first round is the literal \<open>0.9\<close>.\<close>

lemma compounded_scale_first: "compounded_scale (Suc 0) = float_0_9"
  by (simp add: float_0_9_def float_round_def bit_length.simps Let_def)

text \<open>
  The literal is the binary64 nearest to 9/10: a 53-bit significand, less than half a
  unit in the last place away.
\<close>

lemma float_0_9_nearest:
  "2 ^ 52 \<le> (8106479329266893 :: int) \<and> (8106479329266893 :: int) < 2 ^ 53
   \<and> \<bar>8106479329266893 / 2 ^ 53 - 9 / 10 :: real\<bar> < 1 / 2 ^ 54"
  by simp

section \<open>The byte budget\<close>

lemma try_qualities_fits:
  fixes c :: "'img codec"
  shows "try_qualities c img qs = (tr, Inr (Some data)) \<Longrightarrow> length data \<le> TARGET_MAX_BYTES"
proof (induction qs arbitrary: tr)
  case Nil
  then show ?case by (simp add: ret_def)
next
  case (Cons q qs)
  from Cons.prems obtain d tr2 where
    step: "(if length d \<le> TARGET_MAX_BYTES then ret (Some d) else try_qualities c img qs)
             = (tr2 :: 'img event list, Inr (Some data))"
    by (auto simp: bind_run_Inr)
  show ?case
  proof (cases "length d \<le> TARGET_MAX_BYTES")
    case True
    with step show ?thesis by (simp add: ret_def)
  next
    case False
    with step Cons.IH show ?thesis by simp
  qed
qed

lemma scale_rounds_fits:
  fixes c :: "'img codec"
  shows "scale_rounds c img w h scale n = (tr, Inr (Some data)) \<Longrightarrow>
         length data \<le> TARGET_MAX_BYTES"
proof (induction n arbitrary: scale tr)
  case 0
  then show ?case by (simp add: ret_def)
next
  case (Suc n)
  from Suc.prems obtain tmp found tr1 tr2 where
    ladder: "try_qualities c tmp fallback_ladder = (tr1, Inr found)" and
    rest: "(case found of Some d \<Rightarrow> ret (Some d)
            | None \<Rightarrow> scale_rounds c img w h (float_mul scale float_0_9) n)
           = (tr2 :: 'img event list, Inr (Some data))"
    by (auto simp: bind_run_Inr)
  show ?case
  proof (cases found)
    case None
    with rest Suc.IH show ?thesis by simp
  next
    case (Some d)
    with rest have "d = data" by (simp add: ret_def)
    with ladder Some show ?thesis by (auto dest: try_qualities_fits)
  qed
qed

text \<open>
  Claim C1. Whenever \<open>convert_and_compress_to_jpeg\<close> returns, for every input bytes, every
  target width and height and every behaviour of the image library, the bytes returned
  number at most \<open>TARGET_MAX_BYTES\<close> (950000), hence at most \<open>MAX_BYTES\<close> (1000000).
\<close>

theorem C1_fitter_within_budget:
  fixes c :: "'img codec"
  assumes "convert_and_compress_to_jpeg c img_bytes width height = (tr, Inr data)"
  shows "length data \<le> TARGET_MAX_BYTES \<and> length data \<le> MAX_BYTES"
proof -
  from assms obtain img found tr1 tr2 where
    full: "try_qualities c img quality_ladder = (tr1, Inr found)" and
    rest: "(case found of Some d \<Rightarrow> ret d
            | None \<Rightarrow> bind_run (scale_rounds c img width height float_0_9 5) (\<lambda>found.
                case found of Some d \<Rightarrow> ret d
                | None \<Rightarrow> raise_exn
                    (RuntimeError ''Could not compress image under the size limit.'')))
           = (tr2 :: 'img event list, Inr data)"
    unfolding convert_and_compress_to_jpeg_def bind_run_Inr by blast
  have "length data \<le> TARGET_MAX_BYTES"
  proof (cases found)
    case (Some d)
    with rest have "d = data" by (simp add: ret_def)
    with full Some show ?thesis by (auto dest: try_qualities_fits)
  next
    case None
    with rest have "bind_run (scale_rounds c img width height float_0_9 5) (\<lambda>found.
        case found of Some d \<Rightarrow> ret d
        | None \<Rightarrow> raise_exn (RuntimeError ''Could not compress image under the size limit.''))
      = (tr2, Inr data)"
      by simp
    then obtain found' tr3 tr4 where
      rounds: "scale_rounds c img width height float_0_9 5 = (tr3, Inr found')" and
      fin: "(case found' of Some d \<Rightarrow> ret d
             | None \<Rightarrow> raise_exn
                 (RuntimeError ''Could not compress image under the size limit.''))
            = (tr4 :: 'img event list, Inr data)"
      by (rule bind_run_InrE)
    from fin have "found' = Some data" by (rule finish_Inr)
    with rounds show ?thesis by (auto dest: scale_rounds_fits)
  qed
  then show ?thesis by (simp add: TARGET_MAX_BYTES_def MAX_BYTES_def)
qed

theorem C1_fitter_within_budget_witness:
  "convert_and_compress_to_jpeg codec_by_quality [1, 2, 3] 1920 1080 =
     ([EvOpen [1, 2, 3], EvConvert (3, 1), EvResize (3, 1) 1920 1080,
       EvSave (1920, 1080) 95, EvSave (1920, 1080) 92, EvSave (1920, 1080) 90],
      Inr (replicate 1000 0))
   \<and> (length (replicate 1000 (0 :: 8 word)) \<le> TARGET_MAX_BYTES
      \<and> length (replicate 1000 (0 :: 8 word)) \<le> MAX_BYTES)"
proof -
  have run: "convert_and_compress_to_jpeg codec_by_quality [1, 2, 3] 1920 1080 =
     ([EvOpen [1, 2, 3], EvConvert (3, 1), EvResize (3, 1) 1920 1080,
       EvSave (1920, 1080) 95, EvSave (1920, 1080) 92, EvSave (1920, 1080) 90],
      Inr (replicate 1000 0))"
    by (simp add: fitter_eval codec_by_quality_def)
  show ?thesis
    using run C1_fitter_within_budget [OF run] by (rule conjI)
qed

section \<open>The quality search\<close>

lemma try_qualities_first_fit:
  fixes c :: "'img codec"
  assumes "\<forall>q' \<in> set tried. \<exists>d'. save_JPEG c img q' = Inr d' \<and> TARGET_MAX_BYTES < length d'"
      and "save_JPEG c img q = Inr data"
      and "length data \<le> TARGET_MAX_BYTES"
  shows "try_qualities c img (tried @ q # untried) =
           (map (EvSave img) (tried @ [q]), Inr (Some data))"
  using assms
proof (induction tried)
  case Nil
  then show ?case by (simp add: call_def ret_def)
next
  case (Cons q' tried)
  then obtain d' where "save_JPEG c img q' = Inr d'" and "TARGET_MAX_BYTES < length d'"
    by auto
  with Cons show ?case by (simp add: call_def)
qed

lemma try_qualities_none_fit:
  fixes c :: "'img codec"
  assumes "\<forall>q \<in> set qs. \<exists>d. save_JPEG c img q = Inr d \<and> TARGET_MAX_BYTES < length d"
  shows "try_qualities c img qs = (map (EvSave img) qs, Inr None)"
  using assms
proof (induction qs)
  case Nil
  then show ?case by (simp add: ret_def)
next
  case (Cons q qs)
  then obtain d where "save_JPEG c img q = Inr d" and "TARGET_MAX_BYTES < length d"
    by auto
  with Cons show ?case by (simp add: call_def)
qed

text \<open>
  Claim C4. The full-resolution search goes down the ladder 95, 92, 90, 88, 85, 82, 80,
  78, 75, 72, 70, 65, 60, 55, 50, encoding the prepared raster at each level: when the
  levels \<open>tried\<close> gave encodings over the budget and the next level \<open>q\<close> gives one within
  it, the fitter returns that encoding at once. The trace ends with the encode at \<open>q\<close>: no
  level after \<open>q\<close> is tried and nothing else is called.
\<close>

theorem C4_quality_search_first_fit:
  fixes c :: "'img codec"
  assumes prep: "prepare c img_bytes width height = (tr0, Inr img)"
      and ladder: "quality_ladder = tried @ q # untried"
      and larger: "\<forall>q' \<in> set tried. \<exists>d'. save_JPEG c img q' = Inr d' \<and> TARGET_MAX_BYTES < length d'"
      and saved: "save_JPEG c img q = Inr data"
      and fits: "length data \<le> TARGET_MAX_BYTES"
  shows "quality_ladder = [95, 92, 90, 88, 85, 82, 80, 78, 75, 72, 70, 65, 60, 55, 50]
         \<and> convert_and_compress_to_jpeg c img_bytes width height =
             (tr0 @ map (EvSave img) (tried @ [q]), Inr data)"
proof -
  have "try_qualities c img quality_ladder = (map (EvSave img) (tried @ [q]), Inr (Some data))"
    unfolding ladder using larger saved fits by (rule try_qualities_first_fit)
  then have "compress c img width height = (map (EvSave img) (tried @ [q]), Inr data)"
    by (simp add: compress_def ret_def)
  with prep show ?thesis
    by (simp add: fitter_split quality_ladder_def)
qed

theorem C4_quality_search_first_fit_witness:
  "convert_and_compress_to_jpeg codec_by_quality [1, 2, 3] 1920 1080 =
     ([EvOpen [1, 2, 3], EvConvert (3, 1), EvResize (3, 1) 1920 1080,
       EvSave (1920, 1080) 95, EvSave (1920, 1080) 92, EvSave (1920, 1080) 90],
      Inr (replicate 1000 0))"
proof -
  have prep: "prepare codec_by_quality [1, 2, 3] 1920 1080 =
      ([EvOpen [1, 2, 3], EvConvert (3, 1), EvResize (3, 1) 1920 1080], Inr (1920, 1080))"
    by (simp add: fitter_eval codec_by_quality_def)
  have ladder: "quality_ladder = [95, 92] @ 90 # [88, 85, 82, 80, 78, 75, 72, 70, 65, 60, 55, 50]"
    by (simp add: quality_ladder_def)
  have larger: "\<forall>q' \<in> set [95, 92]. \<exists>d'. save_JPEG codec_by_quality (1920, 1080) q' = Inr d'
      \<and> TARGET_MAX_BYTES < length d'"
    by (simp add: fitter_eval codec_by_quality_def)
  have saved: "save_JPEG codec_by_quality (1920, 1080) 90 = Inr (replicate 1000 0)"
    by (simp add: fitter_eval codec_by_quality_def)
  have fits: "length (replicate 1000 (0 :: 8 word)) \<le> TARGET_MAX_BYTES"
    by (simp add: TARGET_MAX_BYTES_def)
  from C4_quality_search_first_fit [OF prep ladder larger saved fits]
  show ?thesis by simp
qed

section \<open>Bytes that are not an image\<close>



text \<open>
  Pillow reads the pixel data lazily: a file whose header parses may fail only in
  \<open>convert\<close>. That failure too comes before any resize or encode.
\<close>

lemma load_failure_before_resize:
  assumes "Image_open c img_bytes = Inr img0" and "convert_RGB c img0 = Inl err"
  shows "convert_and_compress_to_jpeg c img_bytes width height =
           ([EvOpen img_bytes, EvConvert img0], Inl err)"
  using assms by (simp add: convert_and_compress_to_jpeg_def call_def)

section \<open>The scale-down fallback\<close>

lemma first_fit_Cons_large:
  "too_large c img q \<Longrightarrow>
   first_fit c img (q # qs) = (EvSave img q # fst (first_fit c img qs), snd (first_fit c img qs))"
  by (cases "dropWhile (too_large c img) qs")
     (simp_all add: first_fit_def del: dropWhile_eq_Nil_conv)

lemma first_fit_Cons_stop:
  "\<not> too_large c img q \<Longrightarrow>
   first_fit c img (q # qs) =
     ([EvSave img q], case save_JPEG c img q of Inl err \<Rightarrow> Inl err | Inr data \<Rightarrow> Inr (Some data))"
  by (simp add: first_fit_def)

text \<open>The loop over a ladder is the search in order for the first encoding that fits.\<close>

lemma try_qualities_first_fit_eq:
  "try_qualities c img qs = first_fit c img qs"
proof (induction qs)
  case Nil
  show ?case by (simp add: first_fit_def ret_def)
next
  case (Cons q qs)
  show ?case
  proof (cases "save_JPEG c img q")
    case (Inl err)
    then have "\<not> too_large c img q" by (simp add: too_large_def)
    with Inl show ?thesis by (simp add: first_fit_Cons_stop call_def)
  next
    case (Inr data)
    show ?thesis
    proof (cases "length data \<le> TARGET_MAX_BYTES")
      case True
      with Inr have "\<not> too_large c img q" by (simp add: too_large_def)
      with Inr True show ?thesis by (simp add: first_fit_Cons_stop call_def ret_def)
    next
      case False
      with Inr have "too_large c img q" by (simp add: too_large_def)
      with Inr False Cons.IH show ?thesis
        by (simp add: first_fit_Cons_large call_def split: prod.splits)
    qed
  qed
qed



section \<open>How much a run can do\<close>

lemma count_saves_simps [simp]:
  "count_saves [] = 0"
  "count_saves (ev # tr) = (if is_save ev then 1 else 0) + count_saves tr"
  "count_saves (tr @ tr') = count_saves tr + count_saves tr'"
  by (simp_all add: count_saves_def)

lemma count_resizes_simps [simp]:
  "count_resizes [] = 0"
  "count_resizes (ev # tr) = (if is_resize ev then 1 else 0) + count_resizes tr"
  "count_resizes (tr @ tr') = count_resizes tr + count_resizes tr'"
  by (simp_all add: count_resizes_def)

lemma count_map_EvSave [simp]:
  "count_saves (map (EvSave img) qs) = length qs"
  "count_resizes (map (EvSave img) qs) = 0"
  by (induction qs) simp_all



lemma prepare_counts:
  "count_saves (fst (prepare c img_bytes width height)) = 0"
  by (simp add: prepare_def bind_run_trace call_def ret_def split: sum.splits)



section \<open>Exhaustion\<close>

lemma scale_rounds_none_fit:
  fixes c :: "'img codec"
  assumes "\<forall>k \<in> {Suc j ..< Suc j + n}. \<exists>nw nh tmp.
             scaled_dim w (compounded_scale k) = Inr nw
           \<and> scaled_dim h (compounded_scale k) = Inr nh
           \<and> resize_LANCZOS c img (nw, nh) = Inr tmp
           \<and> (\<forall>q \<in> set fallback_ladder. \<exists>d. save_JPEG c tmp q = Inr d \<and> TARGET_MAX_BYTES < length d)"
  shows "\<exists>tr. scale_rounds c img w h (compounded_scale (Suc j)) n = (tr, Inr None)
              \<and> count_saves tr = 6 * n \<and> count_resizes tr = n"
  using assms
proof (induction n arbitrary: j)
  case 0
  show ?case by (simp add: ret_def)
next
  case (Suc n)
  have "Suc j \<in> {Suc j ..< Suc j + Suc n}" by simp
  with Suc.prems have "\<exists>nw nh tmp.
             scaled_dim w (compounded_scale (Suc j)) = Inr nw
           \<and> scaled_dim h (compounded_scale (Suc j)) = Inr nh
           \<and> resize_LANCZOS c img (nw, nh) = Inr tmp
           \<and> (\<forall>q \<in> set fallback_ladder. \<exists>d. save_JPEG c tmp q = Inr d \<and> TARGET_MAX_BYTES < length d)"
    by (rule bspec)
  then obtain nw nh tmp where
    dims: "scaled_dim w (compounded_scale (Suc j)) = Inr nw"
          "scaled_dim h (compounded_scale (Suc j)) = Inr nh" and
    resized: "resize_LANCZOS c img (nw, nh) = Inr tmp" and
    larger: "\<forall>q \<in> set fallback_ladder. \<exists>d. save_JPEG c tmp q = Inr d \<and> TARGET_MAX_BYTES < length d"
    by blast
  have ladder: "try_qualities c tmp fallback_ladder = (map (EvSave tmp) fallback_ladder, Inr None)"
    using larger by (rule try_qualities_none_fit)
  have "\<forall>k \<in> {Suc (Suc j) ..< Suc (Suc j) + n}. \<exists>nw nh tmp.
             scaled_dim w (compounded_scale k) = Inr nw
           \<and> scaled_dim h (compounded_scale k) = Inr nh
           \<and> resize_LANCZOS c img (nw, nh) = Inr tmp
           \<and> (\<forall>q \<in> set fallback_ladder. \<exists>d. save_JPEG c tmp q = Inr d \<and> TARGET_MAX_BYTES < length d)"
    using Suc.prems by (auto simp del: compounded_scale.simps)
  from Suc.IH [OF this] obtain tr where
    rest: "scale_rounds c img w h (compounded_scale (Suc (Suc j))) n = (tr, Inr None)" and
    counts: "count_saves tr = 6 * n" "count_resizes tr = n"
    by blast
  have next_scale: "float_mul (compounded_scale (Suc j)) float_0_9 = compounded_scale (Suc (Suc j))"
    by simp
  have "scale_rounds c img w h (compounded_scale (Suc j)) (Suc n) =
          (EvResize img nw nh # map (EvSave tmp) fallback_ladder @ tr, Inr None)"
    unfolding scale_rounds.simps next_scale
    by (simp add: dims resized ladder rest silent_def call_def del: compounded_scale.simps)
  with counts show ?case
    by (simp add: fallback_ladder_def del: compounded_scale.simps)
qed

text \<open>
  Claim C5. When every quality level at full resolution gives an encoding over the
  budget, and in each of the 5 scale-down rounds every level of the shorter ladder does
  too, the fitter raises the \<open>RuntimeError\<close> of line 70 (the specification's
  \<open>CompressionExhausted\<close>) after all 45 encodes: the result is the exception, and no bytes.
\<close>

theorem C5_exhausted:
  fixes c :: "'img codec"
  assumes prep: "prepare c img_bytes width height = (tr0, Inr img)"
      and full: "\<forall>q \<in> set quality_ladder. \<exists>d. save_JPEG c img q = Inr d \<and> TARGET_MAX_BYTES < length d"
      and rounds: "\<forall>k \<in> {1, 2, 3, 4, 5}. \<exists>nw nh tmp.
             scaled_dim width (compounded_scale k) = Inr nw
           \<and> scaled_dim height (compounded_scale k) = Inr nh
           \<and> resize_LANCZOS c img (nw, nh) = Inr tmp
           \<and> (\<forall>q \<in> set fallback_ladder. \<exists>d. save_JPEG c tmp q = Inr d \<and> TARGET_MAX_BYTES < length d)"
  shows "\<exists>tr. convert_and_compress_to_jpeg c img_bytes width height =
                (tr, Inl (RuntimeError ''Could not compress image under the size limit.''))
              \<and> count_saves tr = 45"
proof -
  have ladder: "try_qualities c img quality_ladder = (map (EvSave img) quality_ladder, Inr None)"
    using full by (rule try_qualities_none_fit)
  have "{Suc 0 ..< Suc 0 + 5} = {1, 2, 3, 4, 5 :: nat}" by auto
  with rounds have "\<forall>k \<in> {Suc 0 ..< Suc 0 + 5}. \<exists>nw nh tmp.
             scaled_dim width (compounded_scale k) = Inr nw
           \<and> scaled_dim height (compounded_scale k) = Inr nh
           \<and> resize_LANCZOS c img (nw, nh) = Inr tmp
           \<and> (\<forall>q \<in> set fallback_ladder. \<exists>d. save_JPEG c tmp q = Inr d \<and> TARGET_MAX_BYTES < length d)"
    by simp
  from scale_rounds_none_fit [OF this] obtain tr where
    fallback: "scale_rounds c img width height float_0_9 5 = (tr, Inr None)" and
    counts: "count_saves tr = 6 * 5"
    unfolding compounded_scale_first by blast
  have "compress c img width height =
          (map (EvSave img) quality_ladder @ tr,
           Inl (RuntimeError ''Could not compress image under the size limit.''))"
    by (simp add: compress_def ladder fallback raise_exn_def)
  with prep have "convert_and_compress_to_jpeg c img_bytes width height =
          (tr0 @ map (EvSave img) quality_ladder @ tr,
           Inl (RuntimeError ''Could not compress image under the size limit.''))"
    by (simp add: fitter_split)
  moreover have "count_saves tr0 = 0"
    using prepare_counts [of c img_bytes width height] prep by simp
  ultimately show ?thesis
    using counts by (simp add: quality_ladder_def)
qed

theorem C5_exhausted_witness:
  "\<exists>tr. convert_and_compress_to_jpeg codec_incompressible [1, 2, 3] 1920 1080 =
           (tr, Inl (RuntimeError ''Could not compress image under the size limit.''))
         \<and> count_saves tr = 45"
proof -
  have prep: "prepare codec_incompressible [1, 2, 3] 1920 1080 =
      ([EvOpen [1, 2, 3], EvConvert (3, 1), EvResize (3, 1) 1920 1080], Inr (1920, 1080))"
    by (simp add: fitter_eval codec_incompressible_def)
  have full: "\<forall>q \<in> set quality_ladder. \<exists>d. save_JPEG codec_incompressible (1920, 1080) q = Inr d
      \<and> TARGET_MAX_BYTES < length d"
    by (simp add: codec_incompressible_def model_codec_def TARGET_MAX_BYTES_def)
  have rounds: "\<forall>k \<in> {1, 2, 3, 4, 5}. \<exists>nw nh tmp.
             scaled_dim 1920 (compounded_scale k) = Inr nw
           \<and> scaled_dim 1080 (compounded_scale k) = Inr nh
           \<and> resize_LANCZOS codec_incompressible (1920, 1080) (nw, nh) = Inr tmp
           \<and> (\<forall>q \<in> set fallback_ladder. \<exists>d. save_JPEG codec_incompressible tmp q = Inr d
                \<and> TARGET_MAX_BYTES < length d)"
    by (simp add: compounded_scale_values float_eval codec_incompressible_def model_codec_def
          TARGET_MAX_BYTES_def)
  from C5_exhausted [OF prep full rounds] show ?thesis .
qed

section \<open>The dimensions of the output\<close>

lemmas dim_eval = scaled_dim_def int_mul_float_def int_to_float_def float_round_def
  bit_length.simps

text \<open>
  On the catalog the binary64 products give the same integers as exact arithmetic: the
  truncation of \<open>x * 0.9^k\<close>, for each of the ten numbers of the catalog and each round.
\<close>

lemma catalog_dim_round_1:
  assumes "x \<in> {1920, 1080, 1280, 720, 1024, 768, 600, 800, 1600, 900}"
  shows "scaled_dim x (compounded_scale 1) = Inr \<lfloor>of_int x * (9 / 10 :: real) ^ 1\<rfloor>"
  using assms unfolding compounded_scale_values
  by (elim insertE emptyE; simp add: dim_eval)

lemma catalog_dim_round_2:
  assumes "x \<in> {1920, 1080, 1280, 720, 1024, 768, 600, 800, 1600, 900}"
  shows "scaled_dim x (compounded_scale 2) = Inr \<lfloor>of_int x * (9 / 10 :: real) ^ 2\<rfloor>"
  using assms unfolding compounded_scale_values
  by (elim insertE emptyE; simp add: dim_eval power_divide)

lemma catalog_dim_round_3:
  assumes "x \<in> {1920, 1080, 1280, 720, 1024, 768, 600, 800, 1600, 900}"
  shows "scaled_dim x (compounded_scale 3) = Inr \<lfloor>of_int x * (9 / 10 :: real) ^ 3\<rfloor>"
  using assms unfolding compounded_scale_values
  by (elim insertE emptyE; simp add: dim_eval power_divide)

lemma catalog_dim_round_4:
  assumes "x \<in> {1920, 1080, 1280, 720, 1024, 768, 600, 800, 1600, 900}"
  shows "scaled_dim x (compounded_scale 4) = Inr \<lfloor>of_int x * (9 / 10 :: real) ^ 4\<rfloor>"
  using assms unfolding compounded_scale_values
  by (elim insertE emptyE; simp add: dim_eval power_divide)

lemma catalog_dim_round_5:
  assumes "x \<in> {1920, 1080, 1280, 720, 1024, 768, 600, 800, 1600, 900}"
  shows "scaled_dim x (compounded_scale 5) = Inr \<lfloor>of_int x * (9 / 10 :: real) ^ 5\<rfloor>"
  using assms unfolding compounded_scale_values
  by (elim insertE emptyE; simp add: dim_eval power_divide)

lemma catalog_scaled_dims:
  assumes "(width, height) \<in> set common_resolutions" and "k \<in> {1, 2, 3, 4, 5}"
  shows "scaled_dim width (compounded_scale k) = Inr (fst (truncated_dims width height k))"
    and "scaled_dim height (compounded_scale k) = Inr (snd (truncated_dims width height k))"
proof -
  from assms(1) have
    w: "width \<in> {1920, 1080, 1280, 720, 1024, 768, 600, 800, 1600, 900}" and
    h: "height \<in> {1920, 1080, 1280, 720, 1024, 768, 600, 800, 1600, 900}"
    by (auto simp: common_resolutions_def)
  from assms(2) consider "k = 1" | "k = 2" | "k = 3" | "k = 4" | "k = 5" by auto
  then have "scaled_dim width (compounded_scale k) = Inr \<lfloor>of_int width * (9 / 10 :: real) ^ k\<rfloor>
      \<and> scaled_dim height (compounded_scale k) = Inr \<lfloor>of_int height * (9 / 10 :: real) ^ k\<rfloor>"
  proof cases
    case 1
    with w h show ?thesis using catalog_dim_round_1 by blast
  next
    case 2
    with w h show ?thesis using catalog_dim_round_2 by blast
  next
    case 3
    with w h show ?thesis using catalog_dim_round_3 by blast
  next
    case 4
    with w h show ?thesis using catalog_dim_round_4 by blast
  next
    case 5
    with w h show ?thesis using catalog_dim_round_5 by blast
  qed
  then show "scaled_dim width (compounded_scale k) = Inr (fst (truncated_dims width height k))"
    and "scaled_dim height (compounded_scale k) = Inr (snd (truncated_dims width height k))"
    by (simp_all add: truncated_dims_def)
qed

lemma saved_rasters_append [simp]:
  "saved_rasters (tr @ tr') = saved_rasters tr @ saved_rasters tr'"
  by (induction tr rule: saved_rasters.induct) simp_all

lemma saved_rasters_map_EvSave [simp]:
  "saved_rasters (map (EvSave img) qs) = map (\<lambda>q. img) qs"
  by (induction qs) simp_all

lemma encoded_raster_append:
  "encoded_raster (tr @ tr') =
     (if saved_rasters tr' = [] then encoded_raster tr else encoded_raster tr')"
  by (simp add: encoded_raster_def split: list.splits)

lemma encoded_raster_saves:
  "encoded_raster (map (EvSave img) (qs @ [q])) = Some img"
  by (simp add: encoded_raster_def)

lemma rounds_entered_after_prepare:
  assumes "count_saves pre = 0" and "is_save ev"
  shows "rounds_entered (pre @ ev # tr) = count_resizes (ev # tr)"
proof -
  from assms(1) have "\<forall>e \<in> set pre. \<not> is_save e"
    by (simp add: count_saves_def filter_empty_conv)
  with assms(2) show ?thesis
    by (simp add: rounds_entered_def dropWhile_append)
qed

lemma prepare_size:
  fixes c :: "'img codec"
  assumes exact: "\<forall>img w h img'. resize_LANCZOS c img (w, h) = Inr img' \<longrightarrow> size_of c img' = (w, h)"
      and prep: "prepare c img_bytes width height = (tr0, Inr img)"
  shows "size_of c img = (width, height)"
proof -
  from prep obtain img1 tr1 where
    last_step: "(if size_of c img1 \<noteq> (width, height)
       then call (EvResize img1 width height) (resize_LANCZOS c img1 (width, height))
       else ret img1) = (tr1 :: 'img event list, Inr img)"
    unfolding prepare_def bind_run_Inr by blast
  show ?thesis
  proof (cases "size_of c img1 = (width, height)")
    case True
    with last_step show ?thesis by (simp add: ret_def)
  next
    case False
    with last_step have "resize_LANCZOS c img1 (width, height) = Inr img"
      by (simp add: call_def)
    with exact show ?thesis by blast
  qed
qed

lemma first_fit_success:
  assumes "first_fit c img qs = (tr, Inr (Some data))"
  shows "\<exists>passed q. tr = map (EvSave img) (passed @ [q]) \<and> save_JPEG c img q = Inr data"
proof (cases "dropWhile (too_large c img) qs")
  case Nil
  with assms show ?thesis by (simp add: first_fit_def del: dropWhile_eq_Nil_conv)
next
  case (Cons q untried)
  with assms have tr: "tr = map (EvSave img) (takeWhile (too_large c img) qs @ [q])"
    and res: "(case save_JPEG c img q of Inl err \<Rightarrow> Inl err | Inr d \<Rightarrow> Inr (Some d)) = Inr (Some data)"
    by (simp_all add: first_fit_def)
  from res have "save_JPEG c img q = Inr data"
    by (cases "save_JPEG c img q") simp_all
  with tr show ?thesis by blast
qed

lemma first_fit_fall_through:
  assumes "first_fit c img qs = (tr, Inr None)"
  shows "tr = map (EvSave img) qs"
proof (cases "dropWhile (too_large c img) qs")
  case Nil
  with assms show ?thesis by (simp add: first_fit_def del: dropWhile_eq_Nil_conv)
next
  case (Cons q untried)
  with assms have "(case save_JPEG c img q of Inl err \<Rightarrow> Inl err | Inr d \<Rightarrow> Inr (Some d)) = Inr None"
    by (simp add: first_fit_def)
  then show ?thesis by (cases "save_JPEG c img q") simp_all
qed

lemma encoded_raster_Some_saved:
  "encoded_raster tr = Some img \<Longrightarrow> saved_rasters tr \<noteq> []"
  by (auto simp: encoded_raster_def)

lemma scale_rounds_success:
  fixes c :: "'img codec"
  assumes "scale_rounds c img w h (compounded_scale (Suc j)) n = (tr, Inr (Some data))"
  shows "\<exists>k nw nh tmp q.
           j < k \<and> k \<le> j + n \<and> count_resizes tr = k - j
         \<and> scaled_dim w (compounded_scale k) = Inr nw
         \<and> scaled_dim h (compounded_scale k) = Inr nh
         \<and> resize_LANCZOS c img (nw, nh) = Inr tmp
         \<and> encoded_raster tr = Some tmp
         \<and> save_JPEG c tmp q = Inr data"
  using assms
proof (induction n arbitrary: j tr)
  case 0
  then show ?case by (simp add: ret_def)
next
  case (Suc n)
  from Suc.prems obtain nw nh tmp tr1 found tr2 where
    dims: "scaled_dim w (compounded_scale (Suc j)) = Inr nw"
          "scaled_dim h (compounded_scale (Suc j)) = Inr nh" and
    resized: "resize_LANCZOS c img (nw, nh) = Inr tmp" and
    ladder: "try_qualities c tmp fallback_ladder = (tr1, Inr found)" and
    rest: "(case found of Some d \<Rightarrow> ret (Some d)
            | None \<Rightarrow> scale_rounds c img w h (float_mul (compounded_scale (Suc j)) float_0_9) n)
           = (tr2 :: 'img event list, Inr (Some data))" and
    tr: "tr = EvResize img nw nh # tr1 @ tr2"
    by (auto simp: bind_run_Inr silent_def call_def simp del: compounded_scale.simps)
  show ?case
  proof (cases found)
    case (Some d)
    with rest have "d = data" and "tr2 = []" by (simp_all add: ret_def)
    with ladder Some have "first_fit c tmp fallback_ladder = (tr1, Inr (Some data))"
      by (simp add: try_qualities_first_fit_eq)
    from first_fit_success [OF this] obtain passed q where
      tr1: "tr1 = map (EvSave tmp) (passed @ [q])" and saved: "save_JPEG c tmp q = Inr data"
      by blast
    have "encoded_raster tr = Some tmp"
      unfolding tr tr1 \<open>tr2 = []\<close>
      using encoded_raster_append [of "[EvResize img nw nh]" "map (EvSave tmp) (passed @ [q])"]
        encoded_raster_saves [of tmp passed q]
      by simp
    moreover have "count_resizes tr = Suc j - j"
      unfolding tr tr1 \<open>tr2 = []\<close> by simp
    ultimately show ?thesis
      using dims resized saved
      by (intro exI [of _ "Suc j"] exI [of _ nw] exI [of _ nh] exI [of _ tmp] exI [of _ q])
         (simp del: compounded_scale.simps)
  next
    case None
    with ladder have "first_fit c tmp fallback_ladder = (tr1, Inr None)"
      by (simp add: try_qualities_first_fit_eq)
    then have tr1: "tr1 = map (EvSave tmp) fallback_ladder"
      by (rule first_fit_fall_through)
    from rest None
    have "scale_rounds c img w h (compounded_scale (Suc (Suc j))) n = (tr2, Inr (Some data))"
      by simp
    from Suc.IH [OF this] obtain k nw' nh' tmp' q where
      k: "Suc j < k" "k \<le> Suc j + n" "count_resizes tr2 = k - Suc j" and
      dims': "scaled_dim w (compounded_scale k) = Inr nw'"
             "scaled_dim h (compounded_scale k) = Inr nh'" and
      resized': "resize_LANCZOS c img (nw', nh') = Inr tmp'" and
      enc: "encoded_raster tr2 = Some tmp'" and
      saved: "save_JPEG c tmp' q = Inr data"
      by blast
    from enc have "saved_rasters tr2 \<noteq> []" by (rule encoded_raster_Some_saved)
    then have "encoded_raster tr = Some tmp'"
      unfolding tr using encoded_raster_append [of "EvResize img nw nh # tr1" tr2] enc by simp
    moreover from k have "count_resizes tr = k - j"
      unfolding tr tr1 by simp
    moreover from k have "j < k" and "k \<le> j + Suc n" by simp_all
    ultimately show ?thesis
      using dims' resized' saved by blast
  qed
qed

text \<open>
  Claim C2, as amended. The pixel dimensions of the output are those of the raster whose
  encoding is returned. For a target of the catalog and a library whose resize gives the
  dimensions asked for, a successful fit returns the encoding of a raster of exactly
  \<open>(width, height)\<close> when no scale-down round was entered, and of
  \<open>(\<lfloor>width * 0.9^k\<rfloor>, \<lfloor>height * 0.9^k\<rfloor>)\<close> when round \<open>k\<close> succeeded, with \<open>k\<close> at most 5:
  \<open>int(...)\<close> truncates, it does not round.
\<close>

theorem C2_dimensions_truncated:
  fixes c :: "'img codec"
  assumes catalog: "(width, height) \<in> set common_resolutions"
      and exact: "\<forall>img w h img'. resize_LANCZOS c img (w, h) = Inr img' \<longrightarrow> size_of c img' = (w, h)"
      and run: "convert_and_compress_to_jpeg c img_bytes width height = (tr, Inr data)"
  shows "\<exists>img q. encoded_raster tr = Some img
           \<and> save_JPEG c img q = Inr data
           \<and> rounds_entered tr \<le> 5
           \<and> size_of c img =
               (if rounds_entered tr = 0 then (width, height)
                else truncated_dims width height (rounds_entered tr))"
proof -
  from run obtain tr0 img tr' where
    prep: "prepare c img_bytes width height = (tr0, Inr img)" and
    comp: "compress c img width height = (tr', Inr data)" and
    tr: "tr = tr0 @ tr'"
    unfolding fitter_split by (rule bind_run_InrE)
  have size: "size_of c img = (width, height)"
    using exact prep by (rule prepare_size)
  have pre: "count_saves tr0 = 0"
    using prepare_counts [of c img_bytes width height] prep by simp
  from comp obtain tr1 found tr2 where
    full: "try_qualities c img quality_ladder = (tr1, Inr found)" and
    rest: "(case found of Some d \<Rightarrow> ret d
            | None \<Rightarrow> bind_run (scale_rounds c img width height float_0_9 5) (\<lambda>found.
                case found of Some d \<Rightarrow> ret d
                | None \<Rightarrow> raise_exn
                    (RuntimeError ''Could not compress image under the size limit.'')))
           = (tr2 :: 'img event list, Inr data)" and
    tr': "tr' = tr1 @ tr2"
    unfolding compress_def by (rule bind_run_InrE)
  show ?thesis
  proof (cases found)
    case (Some d)
    with rest have "d = data" and "tr2 = []" by (simp_all add: ret_def)
    with full Some have "first_fit c img quality_ladder = (tr1, Inr (Some data))"
      by (simp add: try_qualities_first_fit_eq)
    from first_fit_success [OF this] obtain passed q where
      tr1: "tr1 = map (EvSave img) (passed @ [q])" and saved: "save_JPEG c img q = Inr data"
      by blast
    have whole: "tr = tr0 @ map (EvSave img) (passed @ [q])"
      by (simp add: tr tr' tr1 \<open>tr2 = []\<close>)
    have enc: "encoded_raster tr = Some img"
      unfolding whole
      using encoded_raster_append [of tr0 "map (EvSave img) (passed @ [q])"]
        encoded_raster_saves [of img passed q]
      by simp
    obtain ev evs where evs: "map (EvSave img) (passed @ [q]) = ev # evs" and "is_save ev"
      by (cases passed) simp_all
    then have "rounds_entered tr = count_resizes (map (EvSave img) (passed @ [q]))"
      unfolding whole using rounds_entered_after_prepare [OF pre, of ev evs] by simp
    then have "rounds_entered tr = 0" by simp
    with enc saved size show ?thesis by auto
  next
    case None
    with full have "first_fit c img quality_ladder = (tr1, Inr None)"
      by (simp add: try_qualities_first_fit_eq)
    then have tr1: "tr1 = map (EvSave img) quality_ladder"
      by (rule first_fit_fall_through)
    from rest None have "bind_run (scale_rounds c img width height float_0_9 5) (\<lambda>found.
        case found of Some d \<Rightarrow> ret d
        | None \<Rightarrow> raise_exn (RuntimeError ''Could not compress image under the size limit.''))
      = (tr2, Inr data)"
      by simp
    then obtain found' tr3 tr4 where
      rounds: "scale_rounds c img width height float_0_9 5 = (tr3, Inr found')" and
      fin: "(case found' of Some d \<Rightarrow> ret d
             | None \<Rightarrow> raise_exn
                 (RuntimeError ''Could not compress image under the size limit.''))
            = (tr4 :: 'img event list, Inr data)" and
      tr2: "tr2 = tr3 @ tr4"
      by (rule bind_run_InrE)
    from fin have found': "found' = Some data" by (rule finish_Inr)
    with fin have "tr4 = []" by (simp add: ret_def)
    from rounds found'
    have "scale_rounds c img width height (compounded_scale (Suc 0)) 5 = (tr3, Inr (Some data))"
      by (simp only: compounded_scale_first)
    from scale_rounds_success [OF this] obtain k nw nh tmp q where
      k: "0 < k" "k \<le> 5" "count_resizes tr3 = k" and
      dims: "scaled_dim width (compounded_scale k) = Inr nw"
            "scaled_dim height (compounded_scale k) = Inr nh" and
      resized: "resize_LANCZOS c img (nw, nh) = Inr tmp" and
      enc3: "encoded_raster tr3 = Some tmp" and
      saved: "save_JPEG c tmp q = Inr data"
      by auto
    have whole: "tr = tr0 @ map (EvSave img) quality_ladder @ tr3"
      by (simp add: tr tr' tr1 tr2 \<open>tr4 = []\<close>)
    from enc3 have "saved_rasters tr3 \<noteq> []" by (rule encoded_raster_Some_saved)
    then have enc: "encoded_raster tr = Some tmp"
      unfolding whole
      using encoded_raster_append [of "tr0 @ map (EvSave img) quality_ladder" tr3] enc3
      by simp
    have "rounds_entered tr = count_resizes (map (EvSave img) quality_ladder @ tr3)"
      unfolding whole quality_ladder_def
      using rounds_entered_after_prepare [OF pre, of "EvSave img 95"] by simp
    with k have entered: "rounds_entered tr = k" by simp
    from k have "k \<in> {1, 2, 3, 4, 5}" by auto
    with catalog dims have "nw = fst (truncated_dims width height k)"
        and "nh = snd (truncated_dims width height k)"
      using catalog_scaled_dims [of width height k] by simp_all
    moreover from exact resized have "size_of c tmp = (nw, nh)" by blast
    ultimately have "size_of c tmp = truncated_dims width height k" by simp
    with enc saved entered k show ?thesis by auto
  qed
qed

lemma run_by_width:
  "convert_and_compress_to_jpeg codec_by_width [1, 2, 3] 1920 1080 =
     ([EvOpen [1, 2, 3], EvConvert (3, 1), EvResize (3, 1) 1920 1080] @
      map (EvSave (1920, 1080)) quality_ladder @
      EvResize (1920, 1080) 1728 972 # map (EvSave (1728, 972)) fallback_ladder @
      [EvResize (1920, 1080) 1555 874, EvSave (1555, 874) 80],
      Inr (replicate 1000 0))"
  by (simp add: fitter_eval codec_by_width_def scale_rounds_numeral float_eval)

text \<open>
  Claim C2, as stated, fails. For the catalog target 1920 by 1080 and encodings that fit
  only below 1600 pixels of width, round 2 is the first to succeed: the raster encoded
  is 1555 by 874, since \<open>int(1080 * 0.81)\<close> is 874, where rounding 874.8 gives 875.
\<close>

theorem C2_rounding_counterexample:
  "(1920, 1080) \<in> set common_resolutions
   \<and> snd (convert_and_compress_to_jpeg codec_by_width [1, 2, 3] 1920 1080) = Inr (replicate 1000 0)
   \<and> rounds_entered (fst (convert_and_compress_to_jpeg codec_by_width [1, 2, 3] 1920 1080)) = 2
   \<and> encoded_raster (fst (convert_and_compress_to_jpeg codec_by_width [1, 2, 3] 1920 1080))
       = Some (1555, 874)
   \<and> size_of codec_by_width (1555, 874) = (1555, 874)
   \<and> spec_rounded_dims 1920 1080 2 = (1555, 875)
   \<and> size_of codec_by_width (1555, 874) \<noteq> spec_rounded_dims 1920 1080 2"
  unfolding run_by_width
  by (simp add: common_resolutions_def rounds_entered_def encoded_raster_def
        quality_ladder_def fallback_ladder_def codec_by_width_def model_codec_def
        spec_rounded_dims_def round_def power_divide)

theorem C2_dimensions_truncated_witness:
  "\<exists>img q.
      encoded_raster (fst (convert_and_compress_to_jpeg codec_by_width [1, 2, 3] 1920 1080)) = Some img
    \<and> save_JPEG codec_by_width img q = Inr (replicate 1000 0)
    \<and> rounds_entered (fst (convert_and_compress_to_jpeg codec_by_width [1, 2, 3] 1920 1080)) \<le> 5
    \<and> size_of codec_by_width img =
        (if rounds_entered (fst (convert_and_compress_to_jpeg codec_by_width [1, 2, 3] 1920 1080)) = 0
         then (1920, 1080)
         else truncated_dims 1920 1080
                (rounds_entered (fst (convert_and_compress_to_jpeg codec_by_width [1, 2, 3] 1920 1080))))"
proof -
  have catalog: "(1920, 1080) \<in> set common_resolutions"
    by (simp add: common_resolutions_def)
  have exact: "\<forall>img w h img'. resize_LANCZOS codec_by_width img (w, h) = Inr img'
      \<longrightarrow> size_of codec_by_width img' = (w, h)"
    by (auto simp: codec_by_width_def model_codec_def split: if_splits)
  have run: "convert_and_compress_to_jpeg codec_by_width [1, 2, 3] 1920 1080 =
      (fst (convert_and_compress_to_jpeg codec_by_width [1, 2, 3] 1920 1080),
       Inr (replicate 1000 0))"
    by (simp add: run_by_width)
  from C2_dimensions_truncated [OF catalog exact run] show ?thesis .
qed

text \<open>The truncated dimensions of that round are the ones the run produced.\<close>

lemma truncated_dims_round_2:
  "truncated_dims 1920 1080 2 = (1555, 874)"
  by (simp add: truncated_dims_def power_divide)

section \<open>The script around the fitter\<close>

lemma strip_Nil [simp]: "strip [] = []"
  by (simp add: strip_def)

text \<open>
  Claim C9. When \<open>BSKY_HANDLE\<close> or \<open>BSKY_APP_PASSWORD\<close> is absent from the environment,
  \<open>main\<close> raises the \<open>RuntimeError\<close> of line 79 (the specification's \<open>ConfigError\<close>) with an
  empty trace: before the fetch, the fitter, the login and the post.
\<close>

theorem C9_missing_credentials:
  assumes "environ sv ''BSKY_HANDLE'' = None \<or> environ sv ''BSKY_APP_PASSWORD'' = None"
  shows "main c sv =
           ([], Inl (RuntimeError
              ''Missing BSKY_HANDLE or BSKY_APP_PASSWORD environment variables.''))"
  using assms
  by (auto simp: main_def main_with_def environ_get_def raise_exn_def Let_def)

theorem C9_missing_credentials_witness:
  "environ (model_services [''BSKY_HANDLE'' \<mapsto> ''me.bsky.social'']) ''BSKY_APP_PASSWORD'' = None
   \<and> main codec_by_quality (model_services [''BSKY_HANDLE'' \<mapsto> ''me.bsky.social'']) =
       ([], Inl (RuntimeError
          ''Missing BSKY_HANDLE or BSKY_APP_PASSWORD environment variables.''))"
proof -
  have absent: "environ (model_services [''BSKY_HANDLE'' \<mapsto> ''me.bsky.social''])
      ''BSKY_APP_PASSWORD'' = None"
    by (simp add: model_services_def)
  then have either:
    "environ (model_services [''BSKY_HANDLE'' \<mapsto> ''me.bsky.social'']) ''BSKY_HANDLE'' = None
     \<or> environ (model_services [''BSKY_HANDLE'' \<mapsto> ''me.bsky.social''])
         ''BSKY_APP_PASSWORD'' = None"
    by (rule disjI2)
  show ?thesis
    using absent C9_missing_credentials [OF either] by (rule conjI)
qed

text \<open>
  Claim C6. \<open>TARGET_MAX_BYTES\<close> is strictly below \<open>MAX_BYTES\<close>, and \<open>main\<close> checks the
  byte count again after the fitter has returned: with the credentials present, a
  resolution drawn and the image fetched, a fitter that returns more than \<open>MAX_BYTES\<close>
  bytes makes \<open>main\<close> raise the \<open>RuntimeError\<close> of line 87; the trace holds the fetch and
  the fitter's calls, and no client, login or post.
\<close>

theorem C6_hard_limit_recheck:
  assumes handle: "strip (environ_get (environ sv) ''BSKY_HANDLE'' []) \<noteq> []"
      and password: "strip (environ_get (environ sv) ''BSKY_APP_PASSWORD'' []) \<noteq> []"
      and choice: "random_choice sv common_resolutions = Inr (width, height)"
      and fetched: "download_random_picsum sv width height 30 = (tr_get, Inr (raw_bytes, final_url))"
      and fitted: "fit raw_bytes width height = (tr_fit, Inr jpeg_bytes)"
      and over: "MAX_BYTES < length jpeg_bytes"
  shows "TARGET_MAX_BYTES < MAX_BYTES
         \<and> main_with fit sv =
             (tr_get @ tr_fit,
              Inl (RuntimeError (''Image is still too large: ''
                     @ str_int (int (length jpeg_bytes)) @ '' bytes'')))"
  using assms
  by (simp add: main_with_def Let_def silent_def raise_exn_def TARGET_MAX_BYTES_def MAX_BYTES_def)

theorem C6_hard_limit_recheck_witness:
  "TARGET_MAX_BYTES < MAX_BYTES
   \<and> main_with oversized_fit
       (model_services [''BSKY_HANDLE'' \<mapsto> ''me.bsky.social'', ''BSKY_APP_PASSWORD'' \<mapsto> ''secret'']) =
       ([EvGet ''https://picsum.photos/1920/1080'' 30],
        Inl (RuntimeError ''Image is still too large: 1000001 bytes''))"
proof -
  let ?sv = "model_services
    [''BSKY_HANDLE'' \<mapsto> ''me.bsky.social'', ''BSKY_APP_PASSWORD'' \<mapsto> ''secret'']"
  have handle: "strip (environ_get (environ ?sv) ''BSKY_HANDLE'' []) \<noteq> []"
    by (simp add: main_eval)
  have password: "strip (environ_get (environ ?sv) ''BSKY_APP_PASSWORD'' []) \<noteq> []"
    by (simp add: main_eval)
  have choice: "random_choice ?sv common_resolutions = Inr (1920, 1080)"
    by (simp add: main_eval)
  have fetched: "download_random_picsum ?sv 1920 1080 30 =
      ([EvGet ''https://picsum.photos/1920/1080'' 30] :: (int \<times> int) main_event list,
       Inr ([1, 2, 3], ''https://picsum.photos/id/1''))"
    by (simp add: main_eval)
  have fitted: "oversized_fit [1, 2, 3] 1920 1080 = ([], Inr (replicate 1000001 0))"
    by (simp add: oversized_fit_def ret_def)
  have over: "MAX_BYTES < length (replicate 1000001 (0 :: 8 word))"
    by (simp add: MAX_BYTES_def)
  from C6_hard_limit_recheck [where fit = oversized_fit,
    OF handle password choice fetched fitted over]
  show ?thesis by (simp add: str_int_def str_nat.simps digit_char_def)
qed

end
